theory Spec2Isabelle
  imports Main
begin

section \<open>The type universe\<close>

text \<open>
  The program is a set of TypeScript type aliases (the module imported as
  \<^verbatim>\<open>./ast-definition\<close>): every alias is a function from types to types that the
  type checker evaluates. The embedding represents the types these aliases compute
  with as the values of \<open>ty\<close>, and every alias as a HOL function over them.

  \<^item> \<open>TUnion ts\<close> is the union of \<open>ts\<close>; \<open>TUnion []\<close> is \<^verbatim>\<open>never\<close>, and
    \<^verbatim>\<open>boolean\<close> is the union of the two boolean literals, as in the checker.
  \<^item> \<open>TObj ps\<close> is an object type literal with the properties \<open>ps\<close>; the reference
    \<^verbatim>\<open>NodeRef<T>\<close> is, by its declaration, the object type \<^verbatim>\<open>{ $ref: T }\<close>.
  \<^item> \<open>TNode k\<close> is the instantiation of the true branch of \<^verbatim>\<open>Node\<close> at the key
    \<open>k\<close> of \<^verbatim>\<open>nodes\<close>. The checker keeps such an instantiation as a reference and
    computes its members on demand, which is what lets node types refer to one
    another; its members are given by \<open>NodeParts\<close> below. A \<open>TNode k\<close> is read
    relative to the definition it was computed under.
  \<^item> \<open>TInter ts\<close> is an intersection that the checker does not reduce further,
    such as an intersection of object types or of \<^verbatim>\<open>{}\<close> and a literal.
  \<^item> \<open>TNamed n\<close> is a type declared elsewhere (\<^verbatim>\<open>Range\<close> and \<^verbatim>\<open>Location\<close> of
    \<^verbatim>\<open>./ast-common\<close>).
\<close>

datatype ty =
    TAny
  | TUnknown
  | TNull
  | TUndefined
  | TString
  | TNumber
  | TSymbol
  | TStrLit string
  | TNumLit int
  | TBoolLit bool
  | TObj "(string \<times> ty) list"
  | TArray ty
  | TReadonlyArray ty
  | TUnion "ty list"
  | TInter "ty list"
  | TNode string
  | TNamed string

abbreviation TNever :: ty where
  "TNever \<equiv> TUnion []"

abbreviation TBoolean :: ty where
  "TBoolean \<equiv> TUnion [TBoolLit True, TBoolLit False]"

text \<open>The members of a union, nested unions flattened; any other type is its own
  only member, and \<^verbatim>\<open>never\<close> has none.\<close>

fun members :: "ty \<Rightarrow> ty list" where
  "members (TUnion ts) = concat (map members ts)"
| "members t = [t]"

text \<open>Building a union: \<^verbatim>\<open>any\<close> absorbs every other member, then \<^verbatim>\<open>unknown\<close>
  does; duplicates are dropped; a union of one member is that member.\<close>

definition union_of :: "ty list \<Rightarrow> ty" where
  "union_of ts =
     (let ms = remdups (concat (map members ts))
      in if TAny \<in> set ms then TAny
         else if TUnknown \<in> set ms then TUnknown
         else (case ms of [t] \<Rightarrow> t | _ \<Rightarrow> TUnion ms))"

text \<open>A conditional type whose checked type is a type parameter distributes over
  the members of a union: the result is the union of the results for each member.\<close>

definition distribute :: "(ty \<Rightarrow> ty) \<Rightarrow> ty \<Rightarrow> ty" where
  "distribute f T = union_of (map f (members T))"

section \<open>AST definitions\<close>

text \<open>
  \<^verbatim>\<open>interface ASTDefinition { nodes: object; statementType: string; expressionType: string }\<close>.
  \<open>nodes\<close> maps every node type to its node definition, a map from property names
  to property types; both are association lists, a key's first entry being its
  value. \<open>statementType\<close> and \<open>expressionType\<close> are types of node-type names.
\<close>

type_synonym node_def = "(string \<times> ty) list"

record ASTDefinition =
  nodes :: "(string \<times> node_def) list"
  statementType :: ty
  expressionType :: ty

text \<open>\<^verbatim>\<open>keyof T\<close> of an object type: the union of its property names.\<close>

definition keyof :: "(string \<times> 'a) list \<Rightarrow> ty" where
  "keyof ps = union_of (map (\<lambda>p. TStrLit (fst p)) ps)"

text \<open>\<^verbatim>\<open>T[P]\<close> for a property name \<open>P\<close> of an object type of properties.\<close>

definition prop_type :: "node_def \<Rightarrow> string \<Rightarrow> ty" where
  "prop_type ps P = (case map_of ps P of Some t \<Rightarrow> t | None \<Rightarrow> TNever)"

text \<open>\<^verbatim>\<open>TDef["nodes"][TType]\<close>: the node definition of a node type.\<close>

definition node_def_of :: "ASTDefinition \<Rightarrow> string \<Rightarrow> node_def" where
  "node_def_of TDef TType = (case map_of (nodes TDef) TType of Some d \<Rightarrow> d | None \<Rightarrow> [])"

section \<open>Assignability tests of the conditional types\<close>

text \<open>\<^verbatim>\<open>m extends Key\<close> with \<^verbatim>\<open>Key = keyof any = string | number | symbol\<close>, for a
  member \<open>m\<close> other than \<^verbatim>\<open>any\<close>.\<close>

fun extends_Key :: "ty \<Rightarrow> bool" where
  "extends_Key TString = True"
| "extends_Key TNumber = True"
| "extends_Key TSymbol = True"
| "extends_Key (TStrLit s) = True"
| "extends_Key (TNumLit n) = True"
| "extends_Key _ = False"

text \<open>\<^verbatim>\<open>m extends string\<close>.\<close>

fun extends_string :: "ty \<Rightarrow> bool" where
  "extends_string TString = True"
| "extends_string (TStrLit s) = True"
| "extends_string _ = False"

text \<open>\<^verbatim>\<open>m extends { $ref: infer T }\<close>: the inferred \<open>T\<close> when \<open>m\<close> is an object type
  with a property \<^verbatim>\<open>$ref\<close>. Node definitions are written with the types a
  definition file can spell; the resolved nodes and the unknown-type marker are
  results of the resolution and carry no reference.\<close>

fun ref_payload :: "ty \<Rightarrow> ty option" where
  "ref_payload (TObj ps) = map_of ps ''$ref''"
| "ref_payload _ = None"

text \<open>\<^verbatim>\<open>m extends { $ref: infer T }[]\<close>: \<open>m\<close> is a mutable array each of whose
  element members is a reference; \<open>T\<close> is the union of their payloads. From the
  elements \<^verbatim>\<open>any\<close> and \<^verbatim>\<open>never\<close>, which are assignable to everything, nothing is
  inferred and \<open>T\<close> is \<^verbatim>\<open>unknown\<close>.\<close>

fun ref_array_payload :: "ty \<Rightarrow> ty option" where
  "ref_array_payload (TArray e) =
     (if e = TAny \<or> members e = [] then Some TUnknown
      else if \<forall>m \<in> set (members e). ref_payload m \<noteq> None
      then Some (union_of (map (\<lambda>m. the (ref_payload m)) (members e)))
      else None)"
| "ref_array_payload _ = None"

text \<open>Assignability of one member \<open>s\<close> to one member \<open>c\<close>: \<^verbatim>\<open>any\<close> is assignable
  to and from everything, everything is assignable to \<^verbatim>\<open>unknown\<close>, a literal to its
  base type, and otherwise a member to itself. A whole type is assignable to a type
  when every member of the source is assignable to some member of the target.\<close>

definition assignable1 :: "ty \<Rightarrow> ty \<Rightarrow> bool" where
  "assignable1 s c =
     (s = TAny \<or> c = TAny \<or> c = TUnknown \<or> s = c
      \<or> (c = TString \<and> extends_string s)
      \<or> (c = TNumber \<and> (case s of TNumLit n \<Rightarrow> True | _ \<Rightarrow> False)))"

definition assignable :: "ty \<Rightarrow> ty \<Rightarrow> bool" where
  "assignable S C = (\<forall>s \<in> set (members S). \<exists>c \<in> set (members C). assignable1 s c)"

text \<open>\<^verbatim>\<open>Extract<T, U> = T extends U ? T : never\<close> of the standard library, \<open>U\<close>
  given by the test \<^verbatim>\<open>m extends U\<close>. For \<^verbatim>\<open>any\<close> both branches are taken.\<close>

definition Extract :: "ty \<Rightarrow> (ty \<Rightarrow> bool) \<Rightarrow> ty" where
  "Extract T U = distribute (\<lambda>m. if m = TAny then TAny else if U m then m else TNever) T"

text \<open>\<^verbatim>\<open>Exclude<T, U>\<close> on property names.\<close>

definition Exclude :: "string list \<Rightarrow> string list \<Rightarrow> string list" where
  "Exclude T U = filter (\<lambda>k. k \<notin> set U) T"

section \<open>Implementation of \<^verbatim>\<open>Node<Type, ASTDefinition>\<close>\<close>

text \<open>\<^verbatim>\<open>IsAny<T> = boolean extends (T extends never ? true : false) ? true : false\<close>.
  The inner conditional distributes over \<open>T\<close>: no member extends \<^verbatim>\<open>never\<close>, for
  \<^verbatim>\<open>any\<close> both branches are taken, and \<^verbatim>\<open>never\<close> has no member. \<^verbatim>\<open>boolean\<close>
  extends the result when both literals are among its members.\<close>

definition IsAny :: "ty \<Rightarrow> bool" where
  "IsAny T =
     (let r = distribute (\<lambda>m. if m = TAny then TBoolean else TBoolLit False) T
      in TBoolLit True \<in> set (members r) \<and> TBoolLit False \<in> set (members r))"

text \<open>\<^verbatim>\<open>IsNever<T> = false extends (T extends never ? true : false) ? false : true\<close>.\<close>

definition IsNever :: "ty \<Rightarrow> bool" where
  "IsNever T =
     (let r = distribute (\<lambda>m. if m = TAny then TBoolean else TBoolLit False) T
      in \<not> TBoolLit False \<in> set (members r))"

text \<open>The intersection \<^verbatim>\<open>string & keyof TDef["nodes"] & X\<close>, by the members of \<open>X\<close>:
  a string literal stays when it is a key, \<^verbatim>\<open>string\<close> and \<^verbatim>\<open>unknown\<close> leave the
  keys, \<^verbatim>\<open>any\<close> makes a non-empty intersection \<^verbatim>\<open>any\<close>, and every other member
  (a number, a symbol) is disjoint from \<^verbatim>\<open>string\<close>.\<close>

definition string_keys_and :: "ASTDefinition \<Rightarrow> ty \<Rightarrow> ty" where
  "string_keys_and TDef X =
     distribute (\<lambda>m. case m of
         TAny \<Rightarrow> (if nodes TDef = [] then TNever else TAny)
       | TUnknown \<Rightarrow> keyof (nodes TDef)
       | TString \<Rightarrow> keyof (nodes TDef)
       | TStrLit s \<Rightarrow> (if s \<in> set (map fst (nodes TDef)) then TStrLit s else TNever)
       | _ \<Rightarrow> TNever) X"

text \<open>\<^verbatim>\<open>ResolveNodeType\<close>: the test on \<^verbatim>\<open>IsAny<TType>\<close> does not distribute; the
  conditionals after it distribute over \<open>TType\<close>, and a member extends the literal
  \<^verbatim>\<open>"Node"\<close> when it is that literal.\<close>

definition ResolveNodeType :: "ty \<Rightarrow> ASTDefinition \<Rightarrow> ty" where
  "ResolveNodeType TType TDef =
     string_keys_and TDef
       (if IsAny TType then keyof (nodes TDef)
        else distribute (\<lambda>m.
               if m = TStrLit ''Node'' then keyof (nodes TDef)
               else if m = TStrLit ''Statement'' then statementType TDef
               else if m = TStrLit ''Expression'' then expressionType TDef
               else m) TType)"

text \<open>The false branch of \<^verbatim>\<open>Node\<close>, the intersection
  \<^verbatim>\<open>{} & "UNKNOWN TYPE:" & TType\<close>, for one member of \<open>TType\<close>. The checker
  evaluates it as it does the intersection of \<open>string_keys_and\<close>: two distinct
  string literals have no value in common, so the intersection with a literal other
  than \<^verbatim>\<open>"UNKNOWN TYPE:"\<close> is \<^verbatim>\<open>never\<close>; \<^verbatim>\<open>string\<close> and \<^verbatim>\<open>unknown\<close> leave
  \<^verbatim>\<open>{} & "UNKNOWN TYPE:"\<close>, which is not reduced further; \<^verbatim>\<open>any\<close> makes the
  intersection \<^verbatim>\<open>any\<close>; every other member (a number, a symbol) is disjoint from
  the string literal.\<close>

definition UnknownType :: "ty \<Rightarrow> ty" where
  "UnknownType TType =
     (case TType of
        TAny \<Rightarrow> TAny
      | TUnknown \<Rightarrow> TInter [TObj [], TStrLit ''UNKNOWN TYPE:'']
      | TString \<Rightarrow> TInter [TObj [], TStrLit ''UNKNOWN TYPE:'']
      | TStrLit s \<Rightarrow> (if s = ''UNKNOWN TYPE:''
                      then TInter [TObj [], TStrLit ''UNKNOWN TYPE:''] else TNever)
      | _ \<Rightarrow> TNever)"

text \<open>\<^verbatim>\<open>Node<TType, TDefinition>\<close> distributes over \<open>TType\<close>. A member that is a key
  of \<^verbatim>\<open>nodes\<close> gives the node of that key; any other member gives the false
  branch. For \<^verbatim>\<open>any\<close> both branches are taken, and the false branch, an
  intersection with \<^verbatim>\<open>any\<close>, is \<^verbatim>\<open>any\<close>.\<close>

definition Node :: "ty \<Rightarrow> ASTDefinition \<Rightarrow> ty" where
  "Node TType TDefinition =
     distribute (\<lambda>m. case m of
         TAny \<Rightarrow> TAny
       | TStrLit k \<Rightarrow> (if k \<in> set (map fst (nodes TDefinition)) then TNode k else UnknownType m)
       | _ \<Rightarrow> UnknownType m) TType"

definition ResolveNode :: "ty \<Rightarrow> ASTDefinition \<Rightarrow> ty" where
  "ResolveNode TType TDef = Node (ResolveNodeType TType TDef) TDef"

text \<open>\<^verbatim>\<open>ResolveNodeRef\<close> distributes over \<open>TMaybeNodeRef\<close>, and its inner conditional
  over the inferred \<open>T\<close>. For \<^verbatim>\<open>any\<close> as \<open>TMaybeNodeRef\<close> nothing is inferred
  for \<open>T\<close>, which is then \<^verbatim>\<open>unknown\<close> and no key: both branches are \<^verbatim>\<open>any\<close>.

  Inside the true branch of the outer conditional the checker narrows
  \<open>TMaybeNodeRef\<close> by the tested type \<^verbatim>\<open>{ $ref: T }\<close>: where the inner conditional
  returns \<open>TMaybeNodeRef\<close> for the payload member \<open>t\<close>, the result is the value
  itself when it is assignable to \<^verbatim>\<open>{ $ref: t }\<close> (its payload is assignable to
  \<open>t\<close>), and the intersection \<^verbatim>\<open>{ $ref: t } & TMaybeNodeRef\<close> otherwise.\<close>

definition ResolveNodeRef :: "ty \<Rightarrow> ASTDefinition \<Rightarrow> ty" where
  "ResolveNodeRef TMaybeNodeRef TDef =
     distribute (\<lambda>M.
       if M = TAny then TAny
       else case ref_payload M of
           Some T \<Rightarrow>
             distribute (\<lambda>t.
               if t = TAny then union_of [ResolveNode t TDef, M]
               else if extends_Key t then ResolveNode t TDef
               else if assignable T t then M
               else TInter [TObj [(''$ref'', t)], M]) T
         | None \<Rightarrow> M) TMaybeNodeRef"

text \<open>\<^verbatim>\<open>NodeProperty\<close> distributes over \<open>TValue\<close>; only a mutable array matches
  \<^verbatim>\<open>(infer TElement)[]\<close>.\<close>

definition NodeProperty :: "ty \<Rightarrow> ASTDefinition \<Rightarrow> ty" where
  "NodeProperty TValue TDef =
     distribute (\<lambda>m. case m of
         TAny \<Rightarrow> TAny
       | TArray TElement \<Rightarrow> TReadonlyArray (ResolveNodeRef TElement TDef)
       | _ \<Rightarrow> ResolveNodeRef m TDef) TValue"

text \<open>\<^verbatim>\<open>NodeCommonKey = keyof NodeCommon<any, any>\<close>.\<close>

definition NodeCommonKey :: "string list" where
  "NodeCommonKey = [''range'', ''loc'', ''parent'']"

text \<open>\<^verbatim>\<open>NodeBody\<close>: a mapped type over \<^verbatim>\<open>"type"\<close> and the property names of the node
  definition, the common keys excluded. The \<^verbatim>\<open>readonly\<close> modifier of its properties
  is not represented.\<close>

definition NodeBody :: "ASTDefinition \<Rightarrow> string \<Rightarrow> (string \<times> ty) list" where
  "NodeBody TDef TType =
     map (\<lambda>P. (P, if P \<in> set (map fst (node_def_of TDef TType))
                  then NodeProperty (prop_type (node_def_of TDef TType) P) TDef
                  else TStrLit TType))
         (Exclude (remdups (''type'' # map fst (node_def_of TDef TType))) NodeCommonKey)"

text \<open>\<^verbatim>\<open>NodeRefType\<close>: both conditionals distribute over \<open>TMaybeNodeRef\<close>.\<close>

definition NodeRefType :: "ty \<Rightarrow> ty" where
  "NodeRefType TMaybeNodeRef =
     Extract
       (union_of
          [distribute (\<lambda>m. if m = TAny then TUnknown
                           else case ref_payload m of Some TType \<Rightarrow> TType | None \<Rightarrow> TNever)
             TMaybeNodeRef,
           distribute (\<lambda>m. if m = TAny then TUnknown
                           else case ref_array_payload m of Some TType \<Rightarrow> TType | None \<Rightarrow> TNever)
             TMaybeNodeRef])
       extends_Key"

definition ChildNodeType :: "node_def \<Rightarrow> ASTDefinition \<Rightarrow> ty" where
  "ChildNodeType TNodeDef TDef =
     ResolveNodeType
       (union_of (map (\<lambda>P. NodeRefType (prop_type TNodeDef P)) (map fst TNodeDef))) TDef"

text \<open>\<^verbatim>\<open>ParentNodeType\<close>: the conditional distributes over \<open>TType\<close>; for \<^verbatim>\<open>any\<close>
  both branches are taken.\<close>

definition ParentNodeType :: "ty \<Rightarrow> ASTDefinition \<Rightarrow> ty" where
  "ParentNodeType TType TDef =
     Extract
       (union_of
          (map (\<lambda>P. distribute
                      (\<lambda>m. if m = TAny then TStrLit P
                           else if assignable m (ChildNodeType (node_def_of TDef P) TDef)
                           then TStrLit P else TNever) TType)
               (map fst (nodes TDef))))
       extends_string"

definition NeverToNull :: "ty \<Rightarrow> ty" where
  "NeverToNull T = (if IsNever T then TNull else T)"

definition ParentNode :: "ty \<Rightarrow> ASTDefinition \<Rightarrow> ty" where
  "ParentNode TType TDef = NeverToNull (Node (ParentNodeType TType TDef) TDef)"

text \<open>\<^verbatim>\<open>interface NodeCommon<TDef, TType>\<close>.\<close>

definition NodeCommon :: "ASTDefinition \<Rightarrow> string \<Rightarrow> (string \<times> ty) list" where
  "NodeCommon TDef TType =
     [(''range'', TNamed ''Range''),
      (''loc'', TNamed ''Location''),
      (''parent'', ParentNode (TStrLit TType) TDef)]"

text \<open>An object type as a constituent of an intersection: its declared properties
  and the value type of its string index signature, if it has one.\<close>

datatype objty = ObjTy (props: "(string \<times> ty) list") (index_sig: "ty option")

text \<open>\<^verbatim>\<open>type NodeFallback = { [key: string]: undefined }\<close>.\<close>

definition NodeFallback :: objty where
  "NodeFallback = ObjTy [] (Some TUndefined)"

text \<open>The members of \<open>TNode k\<close>, the true branch of \<^verbatim>\<open>Node\<close>:
  \<^verbatim>\<open>NodeCommon<TDefinition, TType> & NodeBody<TDefinition, TType> & NodeFallback\<close>.\<close>

definition NodeParts :: "ASTDefinition \<Rightarrow> string \<Rightarrow> objty list" where
  "NodeParts TDefinition TType =
     [ObjTy (NodeCommon TDefinition TType) None,
      ObjTy (NodeBody TDefinition TType) None,
      NodeFallback]"

text \<open>The type of the property \<open>p\<close> of an intersection of object types: the
  intersection of its declared types in the constituents that declare it;
  failing that, the value type of an index signature; \<open>None\<close> when the property
  does not exist, which is a compile error at the access.\<close>

definition lookup_inter :: "objty list \<Rightarrow> string \<Rightarrow> ty option" where
  "lookup_inter parts p =
     (case List.map_filter (\<lambda>part. map_of (props part) p) parts of
        [] \<Rightarrow> (case List.map_filter index_sig parts of [] \<Rightarrow> None | i # _ \<Rightarrow> Some i)
      | [t] \<Rightarrow> Some t
      | ts \<Rightarrow> Some (TInter ts))"

definition NodeProp :: "ASTDefinition \<Rightarrow> string \<Rightarrow> string \<Rightarrow> ty option" where
  "NodeProp TDefinition TType p = lookup_inter (NodeParts TDefinition TType) p"



section \<open>The references a node definition declares\<close>





section \<open>Implementation of \<^verbatim>\<open>Extends<ASTDefinition, ASTEnhancement>\<close>\<close>

text \<open>\<^verbatim>\<open>type ASTEnhancement = Partial<ASTDefinition>\<close>: each property may be absent.\<close>

record ASTEnhancement =
  nodes_opt :: "(string \<times> node_def) list option"
  statementType_opt :: "ty option"
  expressionType_opt :: "ty option"

text \<open>A tuple of enhancements is a list. \<^verbatim>\<open>At0\<close> to \<^verbatim>\<open>At3\<close> match the tuple against
  \<^verbatim>\<open>[infer X, ...any[]]\<close>, \<^verbatim>\<open>[any, infer X, ...any[]]\<close> and so on; \<open>None\<close> is their
  false branch \<^verbatim>\<open>never\<close>.\<close>

definition At0 :: "'a list \<Rightarrow> 'a option" where
  "At0 T = (case T of X # _ \<Rightarrow> Some X | _ \<Rightarrow> None)"

definition At1 :: "'a list \<Rightarrow> 'a option" where
  "At1 T = (case T of _ # X # _ \<Rightarrow> Some X | _ \<Rightarrow> None)"

definition At2 :: "'a list \<Rightarrow> 'a option" where
  "At2 T = (case T of _ # _ # X # _ \<Rightarrow> Some X | _ \<Rightarrow> None)"

definition At3 :: "'a list \<Rightarrow> 'a option" where
  "At3 T = (case T of _ # _ # _ # X # _ \<Rightarrow> Some X | _ \<Rightarrow> None)"

text \<open>\<^verbatim>\<open>Shift4\<close> matches the parameter list \<open>T\<close> against four parameters and a rest
  \<^verbatim>\<open>...xs: infer XS\<close>. A function of fewer parameters is assignable to one of more,
  and the rest is then inferred from no parameter: the empty tuple.\<close>

definition Shift4 :: "'a list \<Rightarrow> 'a list" where
  "Shift4 T = (case T of _ # _ # _ # _ # XS \<Rightarrow> XS | _ \<Rightarrow> [])"

text \<open>\<^verbatim>\<open>Prop<TObject, TKey, TExpected = any, TDefault = never>\<close>, at its two uses. The
  argument is the property \<open>TKey\<close> of \<open>TObject\<close>, \<open>None\<close> when \<open>TObject\<close> has no
  such property or is itself \<^verbatim>\<open>never\<close> (an absent enhancement: the test on the
  one-element tuples holds, but nothing is inferred for \<open>TResult\<close>, and
  \<^verbatim>\<open>unknown\<close> extends neither \<^verbatim>\<open>string\<close> nor \<^verbatim>\<open>{}\<close>). The inner conditional
  distributes over \<open>TResult\<close>.\<close>

definition Prop_string :: "ty option \<Rightarrow> ty" where
  \<comment> \<open>\<^verbatim>\<open>Prop<TObject, TKey, string>\<close>\<close>
  "Prop_string r = (case r of Some TResult \<Rightarrow> Extract TResult extends_string | None \<Rightarrow> TNever)"

definition Prop_object :: "(string \<times> 'a) list option \<Rightarrow> (string \<times> 'a) list" where
  \<comment> \<open>\<^verbatim>\<open>Prop<TObject, TKey, {}, {}>\<close>: an object type extends \<^verbatim>\<open>{}\<close>\<close>
  "Prop_object r = (case r of Some TResult \<Rightarrow> TResult | None \<Rightarrow> [])"

text \<open>\<^verbatim>\<open>UniteArray<T> = [T] extends [any[]] ? T[0][] : T\<close> does not distribute: the
  test holds when every member of \<open>T\<close> is a mutable array, and \<^verbatim>\<open>T[0]\<close> is then
  the union of the element types. It holds of \<^verbatim>\<open>any\<close> too, where \<^verbatim>\<open>T[0]\<close> is
  \<^verbatim>\<open>any\<close>.\<close>

fun array_element :: "ty \<Rightarrow> ty option" where
  "array_element (TArray e) = Some e"
| "array_element _ = None"

definition UniteArray :: "ty \<Rightarrow> ty" where
  "UniteArray T =
     (if T = TAny then TArray TAny
      else if \<forall>m \<in> set (members T). array_element m \<noteq> None
      then TArray (union_of (map (\<lambda>m. the (array_element m)) (members T)))
      else T)"

text \<open>\<^verbatim>\<open>MergeNodeProperties\<close>: a mapped type over the property names of the five
  node definitions; \<^verbatim>\<open>P extends keyof T ? T[P] : never\<close> is \<open>prop_type T P\<close>.\<close>

definition MergeNodeProperties ::
  "node_def \<Rightarrow> node_def \<Rightarrow> node_def \<Rightarrow> node_def \<Rightarrow> node_def \<Rightarrow> node_def" where
  "MergeNodeProperties T U V W X =
     map (\<lambda>P. (P, UniteArray (union_of
                  [prop_type T P, prop_type U P, prop_type V P, prop_type W P, prop_type X P])))
         (remdups (map fst T @ map fst U @ map fst V @ map fst W @ map fst X))"

text \<open>\<^verbatim>\<open>MergeNodes\<close>: a mapped type over the node types of the five \<^verbatim>\<open>nodes\<close>
  objects.\<close>

definition MergeNodes ::
  "(string \<times> node_def) list \<Rightarrow> (string \<times> node_def) list \<Rightarrow> (string \<times> node_def) list \<Rightarrow>
   (string \<times> node_def) list \<Rightarrow> (string \<times> node_def) list \<Rightarrow> (string \<times> node_def) list" where
  "MergeNodes T U V W X =
     map (\<lambda>P. (P, MergeNodeProperties
                    (Prop_object (map_of T P))
                    (Prop_object (map_of U P))
                    (Prop_object (map_of V P))
                    (Prop_object (map_of W P))
                    (Prop_object (map_of X P))))
         (remdups (map fst T @ map fst U @ map fst V @ map fst W @ map fst X))"

text \<open>The object type that \<^verbatim>\<open>ExtendsRec\<close> passes to itself as the new base: the
  base definition merged with the first four enhancements.\<close>

definition Merged :: "ASTDefinition \<Rightarrow> ASTEnhancement list \<Rightarrow> ASTDefinition" where
  "Merged TDefinition TEnhancements =
     \<lparr> nodes = MergeNodes
         (Prop_object (Some (nodes TDefinition)))
         (Prop_object (Option.bind (At0 TEnhancements) nodes_opt))
         (Prop_object (Option.bind (At1 TEnhancements) nodes_opt))
         (Prop_object (Option.bind (At2 TEnhancements) nodes_opt))
         (Prop_object (Option.bind (At3 TEnhancements) nodes_opt)),
       statementType = union_of
         [Prop_string (Some (statementType TDefinition)),
          Prop_string (Option.bind (At0 TEnhancements) statementType_opt),
          Prop_string (Option.bind (At1 TEnhancements) statementType_opt),
          Prop_string (Option.bind (At2 TEnhancements) statementType_opt),
          Prop_string (Option.bind (At3 TEnhancements) statementType_opt)],
       expressionType = union_of
         [Prop_string (Some (expressionType TDefinition)),
          Prop_string (Option.bind (At0 TEnhancements) expressionType_opt),
          Prop_string (Option.bind (At1 TEnhancements) expressionType_opt),
          Prop_string (Option.bind (At2 TEnhancements) expressionType_opt),
          Prop_string (Option.bind (At3 TEnhancements) expressionType_opt)] \<rparr>"

text \<open>\<^verbatim>\<open>ExtendsRec\<close>: the index \<^verbatim>\<open>TEnhancements extends [] ? 0 : 1\<close> selects the base
  definition or the recursive instantiation.\<close>

function ExtendsRec :: "ASTDefinition \<Rightarrow> ASTEnhancement list \<Rightarrow> ASTDefinition" where
  "ExtendsRec TDefinition TEnhancements =
     (if TEnhancements = [] then TDefinition
      else ExtendsRec (Merged TDefinition TEnhancements) (Shift4 TEnhancements))"
  by pat_completeness auto
termination
  by (relation "measure (\<lambda>(TDefinition, TEnhancements). length TEnhancements)")
     (auto simp: Shift4_def split: list.splits)

text \<open>\<^verbatim>\<open>Extends\<close> takes one enhancement or a tuple of them:
  \<^verbatim>\<open>TEnhancement extends ASTEnhancement[] ? TEnhancement : [TEnhancement]\<close>.\<close>

datatype enhancements = One ASTEnhancement | Tuple "ASTEnhancement list"

definition Extends :: "ASTDefinition \<Rightarrow> enhancements \<Rightarrow> ASTDefinition" where
  "Extends TDefinition TEnhancement =
     ExtendsRec TDefinition (case TEnhancement of Tuple es \<Rightarrow> es | One e \<Rightarrow> [e])"

text \<open>The number of recursive instantiations that \<^verbatim>\<open>ExtendsRec\<close> makes for a tuple
  of enhancements: the same recursion, counting its steps.\<close>

function ExtendsRec_steps :: "'a list \<Rightarrow> nat" where
  "ExtendsRec_steps TEnhancements =
     (if TEnhancements = [] then 0 else Suc (ExtendsRec_steps (Shift4 TEnhancements)))"
  by pat_completeness auto
termination
  by (relation "measure length") (auto simp: Shift4_def split: list.splits)

declare ExtendsRec.simps [simp del] ExtendsRec_steps.simps [simp del]

section \<open>Normal forms\<close>

text \<open>A type is in normal form when it is written as the checker keeps a union:
  flat, without duplicate members, \<^verbatim>\<open>any\<close> and \<^verbatim>\<open>unknown\<close> absorbing the other
  members, a single member standing for itself.\<close>

definition normal :: "ty \<Rightarrow> bool" where
  "normal T \<longleftrightarrow> union_of [T] = T"

section \<open>An example definition\<close>

text \<open>The base definition of the example scenario:
  \<^verbatim>\<open>nodes = { Identifier: { name: string }, Program: { body: NodeRef<"Statement">[] } }\<close>,
  \<^verbatim>\<open>statementType = "Identifier"\<close>, with \<^verbatim>\<open>expressionType = "Identifier"\<close>.\<close>

definition Example :: ASTDefinition where
  "Example =
     \<lparr> nodes = [(''Identifier'', [(''name'', TString)]),
                (''Program'', [(''body'', TArray (TObj [(''$ref'', TStrLit ''Statement'')]))])],
       statementType = TStrLit ''Identifier'',
       expressionType = TStrLit ''Identifier'' \<rparr>"

text \<open>Two enhancements of the example definition: each adds a new property to
  \<^verbatim>\<open>Identifier\<close> and declares its property \<^verbatim>\<open>tags\<close> as a sequence, with different
  element types.\<close>

definition Add_extra :: ASTEnhancement where
  "Add_extra =
     \<lparr> nodes_opt = Some [(''Identifier'', [(''extra'', TBoolean), (''tags'', TArray TString)])],
       statementType_opt = None, expressionType_opt = None \<rparr>"

definition Add_more :: ASTEnhancement where
  "Add_more =
     \<lparr> nodes_opt = Some [(''Identifier'', [(''more'', TNumber), (''tags'', TArray TNumber)])],
       statementType_opt = None, expressionType_opt = None \<rparr>"

text \<open>A base definition whose \<^verbatim>\<open>Identifier\<close> declares \<^verbatim>\<open>tags\<close> as a sequence
  already.\<close>

definition Tagged :: ASTDefinition where
  "Tagged =
     \<lparr> nodes = [(''Identifier'', [(''tags'', TArray TBoolean)])],
       statementType = TStrLit ''Identifier'',
       expressionType = TStrLit ''Identifier'' \<rparr>"

text \<open>A base definition whose \<^verbatim>\<open>Identifier\<close> declares \<^verbatim>\<open>tags\<close> as a string.\<close>

definition Labelled :: ASTDefinition where
  "Labelled =
     \<lparr> nodes = [(''Identifier'', [(''tags'', TString)])],
       statementType = TStrLit ''Identifier'',
       expressionType = TStrLit ''Identifier'' \<rparr>"



section \<open>Members of unions\<close>

lemma members_not_union: "m \<in> set (members t) \<Longrightarrow> m \<noteq> TUnion ts"
  by (induction t rule: members.induct) auto

lemma members_member: "m \<in> set (members t) \<Longrightarrow> members m = [m]"
  using members_not_union [of m t] by (cases m) auto

lemma concat_members_id: "\<forall>m \<in> set ms. members m = [m] \<Longrightarrow> concat (map members ms) = ms"
  by (induction ms) auto

lemma members_members: "concat (map members (members t)) = members t"
  by (rule concat_members_id) (simp add: members_member)

lemma members_concat_members:
  "m \<in> set (concat (map members ts)) \<Longrightarrow> members m = [m]"
  by (auto simp: members_member)

lemma members_union_of:
  "members (union_of ts) =
     (let ms = remdups (concat (map members ts))
      in if TAny \<in> set ms then [TAny] else if TUnknown \<in> set ms then [TUnknown] else ms)"
proof -
  define ms where "ms = remdups (concat (map members ts))"
  have own: "\<forall>m \<in> set ms. members m = [m]"
    unfolding ms_def using members_concat_members [of _ ts] by simp
  have "members (case ms of [t] \<Rightarrow> t | _ \<Rightarrow> TUnion ms) = ms"
  proof (cases ms)
    case Nil
    then show ?thesis by simp
  next
    case (Cons a as)
    show ?thesis
    proof (cases as)
      case Nil
      with Cons own show ?thesis by simp
    next
      case (Cons b bs)
      with \<open>ms = a # as\<close> have "(case ms of [t] \<Rightarrow> t | _ \<Rightarrow> TUnion ms) = TUnion ms" by simp
      then show ?thesis using concat_members_id [OF own] by simp
    qed
  qed
  then show ?thesis
    unfolding union_of_def ms_def [symmetric] Let_def by simp
qed

lemma set_members_union_of:
  "set (members (union_of ts)) =
     (let S = (\<Union>t \<in> set ts. set (members t))
      in if TAny \<in> S then {TAny} else if TUnknown \<in> S then {TUnknown} else S)"
  by (simp add: members_union_of Let_def)

lemma set_members_distribute:
  "set (members (distribute f T)) =
     (let S = (\<Union>m \<in> set (members T). set (members (f m)))
      in if TAny \<in> S then {TAny} else if TUnknown \<in> S then {TUnknown} else S)"
  by (simp add: distribute_def set_members_union_of Let_def)

lemma union_of_single: "members t = [t] \<Longrightarrow> t \<noteq> TAny \<Longrightarrow> t \<noteq> TUnknown \<Longrightarrow> union_of [t] = t"
  by (simp add: union_of_def)

lemma distribute_single: "members t = [t] \<Longrightarrow> distribute f t = union_of [f t]"
  by (simp add: distribute_def)

lemma union_of_cong:
  "concat (map members ts) = concat (map members us) \<Longrightarrow> union_of ts = union_of us"
  by (simp add: union_of_def)

lemma union_of_members: "union_of (members t) = union_of [t]"
  by (rule union_of_cong) (simp add: members_members)

lemma union_of_one:
  "union_of [r] =
     (let ms = remdups (members r)
      in if TAny \<in> set ms then TAny else if TUnknown \<in> set ms then TUnknown
         else (case ms of [t] \<Rightarrow> t | _ \<Rightarrow> TUnion ms))"
  by (simp add: union_of_def)

lemma union_of_idem: "union_of [union_of ts] = union_of ts"
proof -
  define ms where "ms = remdups (concat (map members ts))"
  have m: "members (union_of ts) =
      (if TAny \<in> set ms then [TAny] else if TUnknown \<in> set ms then [TUnknown] else ms)"
    by (simp add: members_union_of ms_def Let_def)
  have u: "union_of ts = (if TAny \<in> set ms then TAny else if TUnknown \<in> set ms then TUnknown
         else (case ms of [t] \<Rightarrow> t | _ \<Rightarrow> TUnion ms))"
    by (simp only: union_of_def ms_def Let_def)
  have d: "remdups ms = ms" by (simp add: ms_def)
  show ?thesis
  proof (cases "TAny \<in> set ms \<or> TUnknown \<in> set ms")
    case True
    then show ?thesis using u by (auto simp: union_of_def)
  next
    case False
    then have mr: "members (union_of ts) = ms" using m by simp
    have "union_of [union_of ts] = (case ms of [t] \<Rightarrow> t | _ \<Rightarrow> TUnion ms)"
      unfolding union_of_one mr d Let_def using False by simp
    with u False show ?thesis by simp
  qed
qed

lemma members_keyof: "members (keyof ps) = remdups (map (\<lambda>p. TStrLit (fst p)) ps)"
proof -
  have "concat (map members (map (\<lambda>p. TStrLit (fst p)) ps)) = map (\<lambda>p. TStrLit (fst p)) ps"
    by (induction ps) auto
  then show ?thesis
    by (auto simp: keyof_def members_union_of Let_def)
qed

lemma set_members_keyof: "set (members (keyof ps)) = (\<lambda>k. TStrLit k) ` set (map fst ps)"
  by (auto simp: members_keyof)

lemma keyof_idem: "union_of [keyof ps] = keyof ps"
  by (simp add: keyof_def union_of_idem)

lemma IsAny_iff: "IsAny T \<longleftrightarrow> TAny \<in> set (members T)"
  by (auto simp: IsAny_def set_members_distribute Let_def split: if_splits)


lemma IsAny_StrLit [simp]: "\<not> IsAny (TStrLit s)"
  by (simp add: IsAny_iff)

lemma string_keys_and_keyof: "string_keys_and D (keyof (nodes D)) = keyof (nodes D)"
proof -
  let ?f = "\<lambda>m. case m of
         TAny \<Rightarrow> (if nodes D = [] then TNever else TAny)
       | TUnknown \<Rightarrow> keyof (nodes D)
       | TString \<Rightarrow> keyof (nodes D)
       | TStrLit s \<Rightarrow> (if s \<in> set (map fst (nodes D)) then TStrLit s else TNever)
       | _ \<Rightarrow> TNever"
  have "map ?f (members (keyof (nodes D))) = members (keyof (nodes D))"
    by (rule map_idI) (force simp: set_members_keyof)
  then have "string_keys_and D (keyof (nodes D)) = union_of (members (keyof (nodes D)))"
    by (simp add: string_keys_and_def distribute_def)
  then show ?thesis by (simp add: union_of_members keyof_idem)
qed

lemma ResolveNodeType_Node: "ResolveNodeType (TStrLit ''Node'') D = keyof (nodes D)"
  by (simp add: ResolveNodeType_def distribute_def keyof_idem string_keys_and_keyof)

lemma Node_key: "k \<in> set (map fst (nodes D)) \<Longrightarrow> Node (TStrLit k) D = TNode k"
  by (simp add: Node_def distribute_def union_of_def)


lemma remdups_map_TStrLit: "remdups (map TStrLit ks) = map TStrLit (remdups ks)"
  by (induction ks) auto

lemma remdups_map_TNode: "remdups (map TNode ks) = map TNode (remdups ks)"
  by (induction ks) auto

lemma union_of_TNode: "union_of (map TNode (remdups ks)) = union_of (map TNode ks)"
proof -
  have c: "concat (map members (map TNode xs)) = map TNode xs" for xs
    by (induction xs) auto
  show ?thesis
    by (simp only: union_of_def c remdups_map_TNode remdups_remdups)
qed

lemma Node_keyof: "Node (keyof (nodes D)) D = union_of (map TNode (map fst (nodes D)))"
proof -
  let ?f = "\<lambda>m. case m of
         TAny \<Rightarrow> TAny
       | TStrLit k \<Rightarrow> (if k \<in> set (map fst (nodes D)) then TNode k else UnknownType m)
       | _ \<Rightarrow> UnknownType m"
  have m: "members (keyof (nodes D)) = map TStrLit (remdups (map fst (nodes D)))"
    by (simp add: members_keyof remdups_map_TStrLit [symmetric] comp_def)
  have "map ?f (map TStrLit (remdups (map fst (nodes D)))) = map TNode (remdups (map fst (nodes D)))"
    by simp
  then have "Node (keyof (nodes D)) D = union_of (map TNode (remdups (map fst (nodes D))))"
    unfolding Node_def distribute_def m by (rule arg_cong)
  then show ?thesis
    by (simp only: union_of_TNode)
qed

text \<open>
  C5. Resolving the meta-name \<^verbatim>\<open>"Node"\<close> under a definition gives exactly the union,
  over the keys \<open>K\<close> of its \<^verbatim>\<open>nodes\<close>, of the node type \<^verbatim>\<open>Node<K, D>\<close>.
\<close>

theorem ResolveNode_Node_is_union_of_all_nodes:
  "ResolveNode (TStrLit ''Node'') D =
     union_of (map (\<lambda>K. Node (TStrLit K) D) (map fst (nodes D)))"
proof -
  have "map (\<lambda>K. Node (TStrLit K) D) (map fst (nodes D)) = map TNode (map fst (nodes D))"
    by (rule map_cong) (simp_all add: Node_key)
  then show ?thesis
    by (simp only: ResolveNode_def ResolveNodeType_Node Node_keyof)
qed

theorem ResolveNode_Node_is_union_of_all_nodes_witness:
  "ResolveNode (TStrLit ''Node'') Example = TUnion [TNode ''Identifier'', TNode ''Program'']
   \<and> union_of (map (\<lambda>K. Node (TStrLit K) Example) (map fst (nodes Example)))
       = TUnion [TNode ''Identifier'', TNode ''Program'']"
  using ResolveNode_Node_is_union_of_all_nodes [of Example]
  by (simp add: Example_def Node_def distribute_def union_of_def)

section \<open>Properties of a resolved node\<close>

lemma map_of_map_keys:
  "map_of (map (\<lambda>P. (P, F P)) ks) p = (if p \<in> set ks then Some (F p) else None)"
  by (induction ks) auto

lemma map_of_NodeBody:
  "map_of (NodeBody D N) p =
     (if p \<in> set (''type'' # map fst (node_def_of D N)) \<and> p \<notin> set NodeCommonKey
      then Some (if p \<in> set (map fst (node_def_of D N))
                 then NodeProperty (prop_type (node_def_of D N) p) D
                 else TStrLit N)
      else None)"
  unfolding NodeBody_def map_of_map_keys Exclude_def by auto

lemma map_of_NodeCommon_None: "p \<notin> set NodeCommonKey \<Longrightarrow> map_of (NodeCommon D N) p = None"
  by (simp add: NodeCommon_def NodeCommonKey_def)

lemma keys_NodeCommon: "map fst (NodeCommon D N) = NodeCommonKey"
  by (simp add: NodeCommon_def NodeCommonKey_def)

lemma keys_NodeBody_reserved: "p \<in> set NodeCommonKey \<Longrightarrow> p \<notin> set (map fst (NodeBody D N))"
  by (simp add: NodeBody_def Exclude_def)

lemma NodeProp_eq:
  "NodeProp D N p =
     (case (map_of (NodeCommon D N) p, map_of (NodeBody D N) p) of
        (Some c, Some b) \<Rightarrow> Some (TInter [c, b])
      | (Some c, None) \<Rightarrow> Some c
      | (None, Some b) \<Rightarrow> Some b
      | (None, None) \<Rightarrow> Some TUndefined)"
  by (simp add: NodeProp_def lookup_inter_def NodeParts_def NodeFallback_def List.map_filter_def
           split: option.splits)

lemma NodeProp_common:
  "p \<in> set NodeCommonKey \<Longrightarrow> NodeProp D N p = map_of (NodeCommon D N) p"
  unfolding NodeProp_eq map_of_NodeBody
  by (auto simp: NodeCommon_def NodeCommonKey_def)

lemma NodeProp_type:
  "NodeProp D N ''type'' =
     Some (if ''type'' \<in> set (map fst (node_def_of D N))
           then NodeProperty (prop_type (node_def_of D N) ''type'') D
           else TStrLit N)"
  unfolding NodeProp_eq map_of_NodeBody
  by (simp add: NodeCommon_def NodeCommonKey_def)

text \<open>
  C9. For a node type \<open>N\<close> of the definition, the resolved node can be asked for
  any string-keyed property (the lookup is never a type error), and for a key that
  is neither a declared property of \<open>N\<close> nor one of the common fields
  \<^verbatim>\<open>range\<close>, \<^verbatim>\<open>loc\<close>, \<^verbatim>\<open>parent\<close>, \<^verbatim>\<open>type\<close>, the lookup yields \<^verbatim>\<open>undefined\<close>.
\<close>

theorem NodeFallback_makes_lookup_total:
  assumes "N \<in> set (map fst (nodes D))"
    and "p \<notin> set (map fst (node_def_of D N))"
    and "p \<notin> {''range'', ''loc'', ''parent'', ''type''}"
  shows "NodeProp D N p = Some TUndefined \<and> NodeProp D N q \<noteq> None"
proof -
  from assms(3) have "map_of (NodeCommon D N) p = None"
    by (simp add: map_of_NodeCommon_None NodeCommonKey_def)
  moreover from assms(2,3) have "map_of (NodeBody D N) p = None"
    by (simp add: map_of_NodeBody)
  ultimately have "NodeProp D N p = Some TUndefined"
    by (simp add: NodeProp_eq)
  moreover have "NodeProp D N q \<noteq> None"
    by (simp add: NodeProp_eq split: option.splits)
  ultimately show ?thesis by simp
qed

theorem NodeFallback_makes_lookup_total_witness:
  "''Program'' \<in> set (map fst (nodes Example))
   \<and> ''name'' \<notin> set (map fst (node_def_of Example ''Program''))
   \<and> ''name'' \<notin> {''range'', ''loc'', ''parent'', ''type''}
   \<and> NodeProp Example ''Program'' ''name'' = Some TUndefined
   \<and> NodeProp Example ''Program'' ''body'' \<noteq> None"
  using NodeFallback_makes_lookup_total [of "''Program''" Example "''name''" "''body''"]
  by (simp add: Example_def node_def_of_def)

text \<open>
  C10. For a node type \<open>N\<close> of the definition: when the node definition of \<open>N\<close>
  declares a property \<^verbatim>\<open>type\<close>, the \<^verbatim>\<open>type\<close> of the resolved node is the declared
  value after reference resolution, and the node-type name otherwise; the names
  \<^verbatim>\<open>range\<close>, \<^verbatim>\<open>loc\<close> and \<^verbatim>\<open>parent\<close> are no keys of the resolved body, whatever the
  node definition declares, and the resolved node has the types of the common
  fields for them.
\<close>

theorem NodeBody_type_and_reserved_keys:
  assumes "N \<in> set (map fst (nodes D))"
  shows "NodeProp D N ''type'' =
           Some (if ''type'' \<in> set (map fst (node_def_of D N))
                 then NodeProperty (prop_type (node_def_of D N) ''type'') D
                 else TStrLit N)
       \<and> ''range'' \<notin> set (map fst (NodeBody D N))
       \<and> ''loc'' \<notin> set (map fst (NodeBody D N))
       \<and> ''parent'' \<notin> set (map fst (NodeBody D N))
       \<and> NodeProp D N ''range'' = Some (TNamed ''Range'')
       \<and> NodeProp D N ''loc'' = Some (TNamed ''Location'')
       \<and> NodeProp D N ''parent'' = Some (ParentNode (TStrLit N) D)"
proof -
  have "NodeProp D N ''range'' = Some (TNamed ''Range'')"
    and "NodeProp D N ''loc'' = Some (TNamed ''Location'')"
    and "NodeProp D N ''parent'' = Some (ParentNode (TStrLit N) D)"
    by (simp_all add: NodeProp_common NodeCommonKey_def NodeCommon_def)
  moreover have "''range'' \<notin> set (map fst (NodeBody D N))"
    and "''loc'' \<notin> set (map fst (NodeBody D N))"
    and "''parent'' \<notin> set (map fst (NodeBody D N))"
    by (rule keys_NodeBody_reserved, simp add: NodeCommonKey_def)+
  ultimately show ?thesis
    using NodeProp_type [of D N] by simp
qed

theorem NodeBody_type_and_reserved_keys_witness:
  "''Literal'' \<in> set (map fst (nodes
      \<lparr> nodes = [(''Literal'', [(''type'', TStrLit ''Lit''), (''range'', TString)])],
        statementType = TNever, expressionType = TStrLit ''Literal'' \<rparr>))
   \<and> NodeProp
      \<lparr> nodes = [(''Literal'', [(''type'', TStrLit ''Lit''), (''range'', TString)])],
        statementType = TNever, expressionType = TStrLit ''Literal'' \<rparr>
      ''Literal'' ''type'' = Some (TStrLit ''Lit'')
   \<and> NodeProp
      \<lparr> nodes = [(''Literal'', [(''type'', TStrLit ''Lit''), (''range'', TString)])],
        statementType = TNever, expressionType = TStrLit ''Literal'' \<rparr>
      ''Literal'' ''range'' = Some (TNamed ''Range'')"
  using NodeBody_type_and_reserved_keys [of "''Literal''"
      "\<lparr> nodes = [(''Literal'', [(''type'', TStrLit ''Lit''), (''range'', TString)])],
        statementType = TNever, expressionType = TStrLit ''Literal'' \<rparr>"]
  by (simp add: node_def_of_def prop_type_def NodeProperty_def ResolveNodeRef_def
        distribute_def union_of_def)

section \<open>Unions of nodes\<close>















section \<open>Resolving the meta-names\<close>

lemma set_members_distribute_cong:
  "set (members A) = set (members B) \<Longrightarrow>
   set (members (distribute f A)) = set (members (distribute f B))"
  by (simp add: set_members_distribute)

lemma set_members_ResolveNode_cong:
  assumes "set (members (ResolveNodeType A D)) = set (members (ResolveNodeType B D))"
  shows "set (members (ResolveNode A D)) = set (members (ResolveNode B D))"
  unfolding ResolveNode_def Node_def using assms by (rule set_members_distribute_cong)

lemma set_members_expand_meta:
  assumes "\<forall>m \<in> set (members S). h m = m \<or> h m = S"
  shows "set (members (distribute h S)) = set (members (union_of [S]))"
proof -
  have "(\<Union>m \<in> set (members S). set (members (h m))) = set (members S)"
  proof
    show "(\<Union>m \<in> set (members S). set (members (h m))) \<subseteq> set (members S)"
      using assms by (force simp: members_member)
    show "set (members S) \<subseteq> (\<Union>m \<in> set (members S). set (members (h m)))"
    proof
      fix m assume m: "m \<in> set (members S)"
      with assms have "h m = m \<or> h m = S" by blast
      with m show "m \<in> (\<Union>m \<in> set (members S). set (members (h m)))"
        by (force simp: members_member)
    qed
  qed
  then show ?thesis
    by (simp add: set_members_distribute set_members_union_of Let_def)
qed

lemma ResolveNodeType_Statement:
  "ResolveNodeType (TStrLit ''Statement'') D = string_keys_and D (union_of [statementType D])"
  by (simp add: ResolveNodeType_def distribute_def)

lemma ResolveNodeType_Expression:
  "ResolveNodeType (TStrLit ''Expression'') D = string_keys_and D (union_of [expressionType D])"
  by (simp add: ResolveNodeType_def distribute_def)

lemma set_members_string_keys_and_cong:
  "set (members A) = set (members B) \<Longrightarrow>
   set (members (string_keys_and D A)) = set (members (string_keys_and D B))"
  unfolding string_keys_and_def by (rule set_members_distribute_cong)

lemma ResolveNodeType_not_any:
  "TAny \<notin> set (members T) \<Longrightarrow>
   ResolveNodeType T D =
     string_keys_and D
       (distribute (\<lambda>m.
               if m = TStrLit ''Node'' then keyof (nodes D)
               else if m = TStrLit ''Statement'' then statementType D
               else if m = TStrLit ''Expression'' then expressionType D
               else m) T)"
  by (simp only: ResolveNodeType_def IsAny_iff if_False)

text \<open>
  C4 (as amended). When \<^verbatim>\<open>statementType\<close> is not \<^verbatim>\<open>any\<close> and names neither
  \<^verbatim>\<open>"Node"\<close> nor \<^verbatim>\<open>"Expression"\<close>, resolving \<^verbatim>\<open>"Statement"\<close> gives the same union of
  nodes as resolving \<^verbatim>\<open>statementType\<close>; and when \<^verbatim>\<open>expressionType\<close> is not \<^verbatim>\<open>any\<close>
  and names neither \<^verbatim>\<open>"Node"\<close> nor \<^verbatim>\<open>"Statement"\<close>, resolving \<^verbatim>\<open>"Expression"\<close> gives
  the same union of nodes as resolving \<^verbatim>\<open>expressionType\<close>.
\<close>

theorem ResolveNode_Statement_and_Expression:
  "(TAny \<notin> set (members (statementType D)) \<and>
    TStrLit ''Node'' \<notin> set (members (statementType D)) \<and>
    TStrLit ''Expression'' \<notin> set (members (statementType D))
    \<longrightarrow> set (members (ResolveNode (TStrLit ''Statement'') D))
          = set (members (ResolveNode (statementType D) D)))
   \<and> (TAny \<notin> set (members (expressionType D)) \<and>
      TStrLit ''Node'' \<notin> set (members (expressionType D)) \<and>
      TStrLit ''Statement'' \<notin> set (members (expressionType D))
      \<longrightarrow> set (members (ResolveNode (TStrLit ''Expression'') D))
            = set (members (ResolveNode (expressionType D) D)))"
proof (intro conjI impI)
  let ?h = "\<lambda>m. if m = TStrLit ''Node'' then keyof (nodes D)
               else if m = TStrLit ''Statement'' then statementType D
               else if m = TStrLit ''Expression'' then expressionType D
               else m"
  assume a: "TAny \<notin> set (members (statementType D)) \<and>
    TStrLit ''Node'' \<notin> set (members (statementType D)) \<and>
    TStrLit ''Expression'' \<notin> set (members (statementType D))"
  have "?h m = m \<or> ?h m = statementType D" if "m \<in> set (members (statementType D))" for m
  proof -
    from that a have "m \<noteq> TStrLit ''Node''" and "m \<noteq> TStrLit ''Expression''" by blast+
    then show ?thesis by (cases "m = TStrLit ''Statement''") simp_all
  qed
  then have "\<forall>m \<in> set (members (statementType D)). ?h m = m \<or> ?h m = statementType D"
    by blast
  then have "set (members (distribute ?h (statementType D))) = set (members (union_of [statementType D]))"
    by (rule set_members_expand_meta)
  then have "set (members (string_keys_and D (distribute ?h (statementType D))))
      = set (members (string_keys_and D (union_of [statementType D])))"
    by (rule set_members_string_keys_and_cong)
  moreover from a have "TAny \<notin> set (members (statementType D))" by blast
  then have "ResolveNodeType (statementType D) D
      = string_keys_and D (distribute ?h (statementType D))"
    by (rule ResolveNodeType_not_any)
  ultimately have "set (members (ResolveNodeType (TStrLit ''Statement'') D))
      = set (members (ResolveNodeType (statementType D) D))"
    by (simp only: ResolveNodeType_Statement)
  then show "set (members (ResolveNode (TStrLit ''Statement'') D))
          = set (members (ResolveNode (statementType D) D))"
    by (rule set_members_ResolveNode_cong)
next
  let ?h = "\<lambda>m. if m = TStrLit ''Node'' then keyof (nodes D)
               else if m = TStrLit ''Statement'' then statementType D
               else if m = TStrLit ''Expression'' then expressionType D
               else m"
  assume a: "TAny \<notin> set (members (expressionType D)) \<and>
      TStrLit ''Node'' \<notin> set (members (expressionType D)) \<and>
      TStrLit ''Statement'' \<notin> set (members (expressionType D))"
  have "?h m = m \<or> ?h m = expressionType D" if "m \<in> set (members (expressionType D))" for m
  proof -
    from that a have "m \<noteq> TStrLit ''Node''" and "m \<noteq> TStrLit ''Statement''" by blast+
    then show ?thesis by (cases "m = TStrLit ''Expression''") simp_all
  qed
  then have "\<forall>m \<in> set (members (expressionType D)). ?h m = m \<or> ?h m = expressionType D"
    by blast
  then have "set (members (distribute ?h (expressionType D))) = set (members (union_of [expressionType D]))"
    by (rule set_members_expand_meta)
  then have "set (members (string_keys_and D (distribute ?h (expressionType D))))
      = set (members (string_keys_and D (union_of [expressionType D])))"
    by (rule set_members_string_keys_and_cong)
  moreover from a have "TAny \<notin> set (members (expressionType D))" by blast
  then have "ResolveNodeType (expressionType D) D
      = string_keys_and D (distribute ?h (expressionType D))"
    by (rule ResolveNodeType_not_any)
  ultimately have "set (members (ResolveNodeType (TStrLit ''Expression'') D))
      = set (members (ResolveNodeType (expressionType D) D))"
    by (simp only: ResolveNodeType_Expression)
  then show "set (members (ResolveNode (TStrLit ''Expression'') D))
          = set (members (ResolveNode (expressionType D) D))"
    by (rule set_members_ResolveNode_cong)
qed

lemmas resolve_defs = ResolveNode_def ResolveNodeType_def string_keys_and_def Node_def
  distribute_def union_of_def keyof_def IsAny_def

theorem ResolveNode_Statement_and_Expression_witness:
  "TAny \<notin> set (members (statementType Example))
   \<and> TStrLit ''Node'' \<notin> set (members (statementType Example))
   \<and> TStrLit ''Expression'' \<notin> set (members (statementType Example))
   \<and> TAny \<notin> set (members (expressionType Example))
   \<and> TStrLit ''Node'' \<notin> set (members (expressionType Example))
   \<and> TStrLit ''Statement'' \<notin> set (members (expressionType Example))
   \<and> set (members (ResolveNode (TStrLit ''Statement'') Example))
       = set (members (ResolveNode (statementType Example) Example))
   \<and> set (members (ResolveNode (TStrLit ''Expression'') Example))
       = set (members (ResolveNode (expressionType Example) Example))
   \<and> ResolveNode (TStrLit ''Statement'') Example = TNode ''Identifier''"
  using ResolveNode_Statement_and_Expression [of Example]
  by (simp add: Example_def resolve_defs)

text \<open>The claim as stated fails for a definition whose \<^verbatim>\<open>statementType\<close> is the
  meta-name \<^verbatim>\<open>"Node"\<close>: \<^verbatim>\<open>"Statement"\<close> resolves to \<^verbatim>\<open>never\<close>, for \<^verbatim>\<open>"Node"\<close> is no
  key of \<^verbatim>\<open>nodes\<close>, while \<^verbatim>\<open>statementType\<close> itself resolves to every node.\<close>

theorem ResolveNode_Statement_counterexample:
  "ResolveNode (TStrLit ''Statement'')
      \<lparr> nodes = [(''A'', [])], statementType = TStrLit ''Node'', expressionType = TNever \<rparr>
     = TNever
   \<and> ResolveNode
      (statementType
        \<lparr> nodes = [(''A'', [])], statementType = TStrLit ''Node'', expressionType = TNever \<rparr>)
      \<lparr> nodes = [(''A'', [])], statementType = TStrLit ''Node'', expressionType = TNever \<rparr>
     = TNode ''A''
   \<and> set (members (ResolveNode (TStrLit ''Statement'')
      \<lparr> nodes = [(''A'', [])], statementType = TStrLit ''Node'', expressionType = TNever \<rparr>))
     \<noteq> set (members (ResolveNode
      (statementType
        \<lparr> nodes = [(''A'', [])], statementType = TStrLit ''Node'', expressionType = TNever \<rparr>)
      \<lparr> nodes = [(''A'', [])], statementType = TStrLit ''Node'', expressionType = TNever \<rparr>))"
  by (simp add: resolve_defs)

section \<open>The recursion of \<^verbatim>\<open>ExtendsRec\<close>\<close>







text \<open>
  C6. Applying the extension merger to a base definition with an empty tuple of
  enhancements gives the base definition, for \<^verbatim>\<open>Extends\<close> and for \<^verbatim>\<open>ExtendsRec\<close>.
\<close>

theorem Extends_empty: "Extends D (Tuple []) = D \<and> ExtendsRec D [] = D"
  by (simp add: Extends_def ExtendsRec.simps)

theorem Extends_empty_witness:
  "Extends Example (Tuple []) = Example \<and> ExtendsRec Example [] = Example"
  using Extends_empty [of Example] by simp



section \<open>Reference resolution\<close>

lemma union_of_member: "members m = [m] \<Longrightarrow> union_of [m] = m"
  by (auto simp: union_of_def Let_def)

lemma remdups_map_const: "ms \<noteq> [] \<Longrightarrow> remdups (map (\<lambda>t. v) ms) = [v]"
proof (induction ms)
  case Nil
  then show ?case by simp
next
  case (Cons a ms)
  then show ?case by (cases ms) auto
qed

lemma union_of_map_const:
  assumes "ms \<noteq> []" and "members v = [v]"
  shows "union_of (map (\<lambda>t. v) ms) = v"
proof -
  have "concat (map members (map (\<lambda>t. v) ms)) = map (\<lambda>t. v) ms"
    using assms(2) by (induction ms) auto
  then have "union_of (map (\<lambda>t. v) ms) = union_of [v]"
    unfolding union_of_def using assms by (simp add: remdups_map_const)
  with assms(2) show ?thesis by (simp add: union_of_member)
qed

lemma ResolveNodeRef_member_not_ref:
  assumes "members m = [m]" and "ref_payload m = None"
  shows "ResolveNodeRef m D = m"
  using assms by (simp add: ResolveNodeRef_def distribute_def union_of_member)

lemma ResolveNodeRef_not_ref:
  assumes "\<forall>m \<in> set (members V). ref_payload m = None"
  shows "ResolveNodeRef V D = union_of [V]"
proof -
  have "map (\<lambda>M. if M = TAny then TAny
       else case ref_payload M of
           Some T \<Rightarrow>
             distribute (\<lambda>t.
               if t = TAny then union_of [ResolveNode t D, M]
               else if extends_Key t then ResolveNode t D
               else if assignable T t then M
               else TInter [TObj [(''$ref'', t)], M]) T
         | None \<Rightarrow> M) (members V) = members V"
    by (rule map_idI) (use assms in auto)
  then show ?thesis
    unfolding ResolveNodeRef_def distribute_def by (simp only: union_of_members)
qed

lemma ResolveNodeRef_no_key_payload:
  assumes "ref_payload V = Some P"
    and "\<forall>t \<in> set (members P). t \<noteq> TAny \<and> \<not> extends_Key t"
  shows "ResolveNodeRef V D =
           union_of (map (\<lambda>t. if assignable P t then V else TInter [TObj [(''$ref'', t)], V])
                         (members P))"
proof -
  from assms(1) obtain ps where V: "V = TObj ps" by (cases V) auto
  then have own: "members V = [V]" by simp
  from V have ne: "V \<noteq> TAny" by simp
  have "map (\<lambda>t. if t = TAny then union_of [ResolveNode t D, V]
               else if extends_Key t then ResolveNode t D
               else if assignable P t then V
               else TInter [TObj [(''$ref'', t)], V]) (members P)
      = map (\<lambda>t. if assignable P t then V else TInter [TObj [(''$ref'', t)], V]) (members P)"
    by (rule map_cong) (use assms(2) in auto)
  then have d: "distribute (\<lambda>t. if t = TAny then union_of [ResolveNode t D, V]
               else if extends_Key t then ResolveNode t D
               else if assignable P t then V
               else TInter [TObj [(''$ref'', t)], V]) P
      = union_of (map (\<lambda>t. if assignable P t then V else TInter [TObj [(''$ref'', t)], V])
                      (members P))"
    unfolding distribute_def by (rule arg_cong)
  have "ResolveNodeRef V D = union_of [distribute (\<lambda>t. if t = TAny then union_of [ResolveNode t D, V]
               else if extends_Key t then ResolveNode t D
               else if assignable P t then V
               else TInter [TObj [(''$ref'', t)], V]) P]"
    unfolding ResolveNodeRef_def distribute_single [OF own] using assms(1) ne by simp
  then show ?thesis by (simp only: d union_of_idem)
qed

lemma ResolveNodeRef_single_payload:
  assumes "ref_payload V = Some P" and "members P = [t]"
    and "t \<noteq> TAny" and "\<not> extends_Key t"
  shows "ResolveNodeRef V D = V"
proof -
  from assms(1) obtain ps where "V = TObj ps" by (cases V) auto
  then have own: "members V = [V]" by simp
  have "assignable P t"
    using assms(2) by (simp add: assignable_def assignable1_def members_member [of t P])
  then have "ResolveNodeRef V D = union_of [V]"
    using ResolveNodeRef_no_key_payload [of V P D] assms by simp
  with own show ?thesis by (simp add: union_of_member)
qed

lemma NodeProperty_ref:
  assumes "ref_payload V = Some P"
  shows "NodeProperty V D = ResolveNodeRef V D"
proof -
  from assms obtain ps where V: "V = TObj ps" by (cases V) auto
  then have "NodeProperty V D = union_of [ResolveNodeRef V D]"
    by (simp add: NodeProperty_def distribute_def)
  then show ?thesis
    unfolding ResolveNodeRef_def distribute_def by (simp only: union_of_idem)
qed

lemma NodeProperty_member_not_array:
  assumes "members m = [m]" and "array_element m = None"
  shows "NodeProperty m D = union_of [ResolveNodeRef m D]"
  using assms by (cases m) (simp_all add: NodeProperty_def distribute_def ResolveNodeRef_def union_of_def)

lemma NodeProperty_member_other:
  assumes "members m = [m]" and "array_element m = None" and "ref_payload m = None"
  shows "(case m of TAny \<Rightarrow> TAny
          | TArray TElement \<Rightarrow> TReadonlyArray (ResolveNodeRef TElement D)
          | _ \<Rightarrow> ResolveNodeRef m D) = m"
  using assms by (cases m) (simp_all add: ResolveNodeRef_member_not_ref)

lemma NodeProperty_not_ref_not_array:
  assumes "\<forall>m \<in> set (members V). ref_payload m = None \<and> array_element m = None"
  shows "NodeProperty V D = union_of [V]"
proof -
  have "map (\<lambda>m. case m of TAny \<Rightarrow> TAny
          | TArray TElement \<Rightarrow> TReadonlyArray (ResolveNodeRef TElement D)
          | _ \<Rightarrow> ResolveNodeRef m D) (members V) = members V"
    by (rule map_idI, rule NodeProperty_member_other) (use assms in \<open>auto simp: members_member\<close>)
  then show ?thesis
    unfolding NodeProperty_def distribute_def by (simp only: union_of_members)
qed

lemma NodeProperty_array: "NodeProperty (TArray E) D = TReadonlyArray (ResolveNodeRef E D)"
  by (simp add: NodeProperty_def distribute_def union_of_def)

text \<open>
  C7 (as amended). A symbolic reference whose payload has no member that is a key
  (a string, a number or a symbol) is not resolved to nodes, and its resolution
  does not fail. When the payload is a single type, \<^verbatim>\<open>ResolveNodeRef\<close> and
  \<^verbatim>\<open>NodeProperty\<close> return the reference unchanged. When the payload is a union,
  they return the union, over the payload members \<open>t\<close>, of the reference narrowed
  to \<^verbatim>\<open>{ $ref: t }\<close>: the reference itself where its payload is assignable to \<open>t\<close>,
  the intersection \<^verbatim>\<open>{ $ref: t } & V\<close> otherwise; for the payload \<^verbatim>\<open>never\<close> that
  union is \<^verbatim>\<open>never\<close>. A value with no symbolic reference among its members is
  returned unchanged by \<^verbatim>\<open>ResolveNodeRef\<close>, and by \<^verbatim>\<open>NodeProperty\<close> when no member is
  an array; an array whose elements hold no symbolic reference keeps its element
  type under \<^verbatim>\<open>NodeProperty\<close> and becomes a readonly array.
\<close>

theorem NodeProperty_of_other_values:
  "(ref_payload V = Some P \<and> members P = [t] \<and> t \<noteq> TAny \<and> \<not> extends_Key t
      \<longrightarrow> ResolveNodeRef V D = V \<and> NodeProperty V D = V)
   \<and> (ref_payload U = Some Q \<and> (\<forall>t \<in> set (members Q). t \<noteq> TAny \<and> \<not> extends_Key t)
      \<longrightarrow> ResolveNodeRef U D =
            union_of (map (\<lambda>t. if assignable Q t then U else TInter [TObj [(''$ref'', t)], U])
                          (members Q))
          \<and> NodeProperty U D = ResolveNodeRef U D
          \<and> (members Q = [] \<longrightarrow> ResolveNodeRef U D = TNever))
   \<and> (normal W \<and> (\<forall>m \<in> set (members W). ref_payload m = None)
      \<longrightarrow> ResolveNodeRef W D = W)
   \<and> (normal X \<and> (\<forall>m \<in> set (members X). ref_payload m = None \<and> array_element m = None)
      \<longrightarrow> NodeProperty X D = X)
   \<and> (normal E \<and> (\<forall>m \<in> set (members E). ref_payload m = None)
      \<longrightarrow> NodeProperty (TArray E) D = TReadonlyArray E)"
proof (intro conjI impI)
  assume a: "ref_payload V = Some P \<and> members P = [t] \<and> t \<noteq> TAny \<and> \<not> extends_Key t"
  then show r: "ResolveNodeRef V D = V"
    using ResolveNodeRef_single_payload [of V P t D] by blast
  from a have "NodeProperty V D = ResolveNodeRef V D"
    using NodeProperty_ref [of V P D] by blast
  with r show "NodeProperty V D = V" by simp
next
  assume a: "ref_payload U = Some Q \<and> (\<forall>t \<in> set (members Q). t \<noteq> TAny \<and> \<not> extends_Key t)"
  then show r: "ResolveNodeRef U D =
            union_of (map (\<lambda>t. if assignable Q t then U else TInter [TObj [(''$ref'', t)], U])
                          (members Q))"
    using ResolveNodeRef_no_key_payload [of U Q D] by blast
  from a show "NodeProperty U D = ResolveNodeRef U D"
    using NodeProperty_ref [of U Q D] by blast
  assume "members Q = []"
  with r show "ResolveNodeRef U D = TNever" by (simp add: union_of_def)
next
  assume "normal W \<and> (\<forall>m \<in> set (members W). ref_payload m = None)"
  then show "ResolveNodeRef W D = W"
    using ResolveNodeRef_not_ref [of W D] by (simp add: normal_def)
next
  assume "normal X \<and> (\<forall>m \<in> set (members X). ref_payload m = None \<and> array_element m = None)"
  then show "NodeProperty X D = X"
    using NodeProperty_not_ref_not_array [of X D] by (simp add: normal_def)
next
  assume "normal E \<and> (\<forall>m \<in> set (members E). ref_payload m = None)"
  then show "NodeProperty (TArray E) D = TReadonlyArray E"
    using ResolveNodeRef_not_ref [of E D] by (simp add: normal_def NodeProperty_array)
qed

theorem NodeProperty_of_other_values_witness:
  "ref_payload (TObj [(''$ref'', TNull)]) = Some TNull
   \<and> members TNull = [TNull] \<and> \<not> extends_Key TNull
   \<and> ResolveNodeRef (TObj [(''$ref'', TNull)]) Example = TObj [(''$ref'', TNull)]
   \<and> NodeProperty (TObj [(''$ref'', TNull)]) Example = TObj [(''$ref'', TNull)]
   \<and> ref_payload (TObj [(''$ref'', TBoolean)]) = Some TBoolean
   \<and> \<not> extends_Key (TBoolLit True) \<and> \<not> extends_Key (TBoolLit False)
   \<and> ResolveNodeRef (TObj [(''$ref'', TBoolean)]) Example
       = TUnion [TInter [TObj [(''$ref'', TBoolLit True)], TObj [(''$ref'', TBoolean)]],
                 TInter [TObj [(''$ref'', TBoolLit False)], TObj [(''$ref'', TBoolean)]]]
   \<and> NodeProperty (TObj [(''$ref'', TBoolean)]) Example
       = TUnion [TInter [TObj [(''$ref'', TBoolLit True)], TObj [(''$ref'', TBoolean)]],
                 TInter [TObj [(''$ref'', TBoolLit False)], TObj [(''$ref'', TBoolean)]]]
   \<and> normal (TUnion [TString, TNull])
   \<and> ResolveNodeRef (TUnion [TString, TNull]) Example = TUnion [TString, TNull]
   \<and> NodeProperty (TUnion [TString, TNull]) Example = TUnion [TString, TNull]
   \<and> normal TString
   \<and> NodeProperty (TArray TString) Example = TReadonlyArray TString"
  using NodeProperty_of_other_values
    [of "TObj [(''$ref'', TNull)]" TNull TNull Example "TObj [(''$ref'', TBoolean)]" TBoolean
        "TUnion [TString, TNull]" "TUnion [TString, TNull]" TString]
  by (simp add: normal_def union_of_def assignable_def assignable1_def)

text \<open>The claim as stated fails for \<^verbatim>\<open>NodeProperty\<close> at the array \<^verbatim>\<open>string[]\<close>, which
  is neither a symbolic reference nor a sequence of them and is returned as
  \<^verbatim>\<open>readonly string[]\<close>.\<close>

theorem NodeProperty_array_counterexample:
  "ref_payload (TArray TString) = None
   \<and> ref_array_payload (TArray TString) = None
   \<and> NodeProperty (TArray TString) Example = TReadonlyArray TString
   \<and> NodeProperty (TArray TString) Example \<noteq> TArray TString"
  by (simp add: NodeProperty_array ResolveNodeRef_member_not_ref)

section \<open>Parent inference\<close>





lemma Extract_all:
  assumes "\<forall>m \<in> set (members T). m = TAny \<or> U m"
  shows "Extract T U = union_of [T]"
proof -
  have "map (\<lambda>m. if m = TAny then TAny else if U m then m else TNever) (members T) = members T"
    by (rule map_idI) (use assms in auto)
  then show ?thesis
    unfolding Extract_def distribute_def by (simp only: union_of_members)
qed


lemma set_members_union_of_one_subset: "set (members (union_of [R])) \<subseteq> set (members R)"
  by (auto simp: set_members_union_of Let_def split: if_splits)

lemma union_of_with_never:
  "union_of [union_of [R], TNever] = union_of [R]" "union_of [TNever, union_of [R]] = union_of [R]"
proof -
  have "union_of [union_of [R], TNever] = union_of [union_of [R]]"
    by (rule union_of_cong) simp
  then show "union_of [union_of [R], TNever] = union_of [R]" by (simp only: union_of_idem)
  have "union_of [TNever, union_of [R]] = union_of [union_of [R]]"
    by (rule union_of_cong) simp
  then show "union_of [TNever, union_of [R]] = union_of [R]" by (simp only: union_of_idem)
qed

lemma union_of_never_one: "union_of [TNever] = TNever"
  by (simp add: union_of_def)

lemma NodeRefType_ref:
  assumes ref: "ref_payload v = Some R \<or> ref_array_payload v = Some R"
    and keyR: "\<forall>t \<in> set (members R). t = TAny \<or> extends_Key t"
  shows "NodeRefType v = union_of [R]"
proof -
  have own: "members v = [v]" and ne: "v \<noteq> TAny"
    using ref by (cases v; simp)+
  have inner: "union_of
          [distribute (\<lambda>m. if m = TAny then TUnknown
                           else case ref_payload m of Some TType \<Rightarrow> TType | None \<Rightarrow> TNever) v,
           distribute (\<lambda>m. if m = TAny then TUnknown
                           else case ref_array_payload m of Some TType \<Rightarrow> TType | None \<Rightarrow> TNever) v]
        = union_of [R]"
    using ref
  proof
    assume r: "ref_payload v = Some R"
    then have "ref_array_payload v = None" by (cases v) simp_all
    with r ne show ?thesis
      unfolding distribute_single [OF own]
      by (simp add: union_of_never_one union_of_with_never)
  next
    assume r: "ref_array_payload v = Some R"
    then have "ref_payload v = None" by (cases v) simp_all
    with r ne show ?thesis
      unfolding distribute_single [OF own]
      by (simp add: union_of_never_one union_of_with_never)
  qed
  have "\<forall>m \<in> set (members (union_of [R])). m = TAny \<or> extends_Key m"
    using keyR set_members_union_of_one_subset [of R] by blast
  then have "Extract (union_of [R]) extends_Key = union_of [union_of [R]]"
    by (rule Extract_all)
  then show ?thesis
    unfolding NodeRefType_def inner by (simp only: union_of_idem)
qed

lemma map_of_key: "map_of ps p = Some v \<Longrightarrow> p \<in> set (map fst ps)"
  by (auto dest: map_of_SomeD intro: rev_image_eqI)
























section \<open>The example definitions, evaluated\<close>








section \<open>Merging node definitions\<close>

lemma union_of_remdups: "union_of (remdups es) = union_of es"
proof -
  have "remdups (concat (map members (remdups es))) = remdups (concat (remdups (map members (remdups es))))"
    by (simp only: remdups_concat)
  also have "\<dots> = remdups (concat (remdups (map members es)))"
    by (simp only: remdups_map_remdups)
  also have "\<dots> = remdups (concat (map members es))"
    by (simp only: remdups_concat)
  finally show ?thesis by (simp only: union_of_def)
qed

lemma concat_members_TArray: "concat (map members (map TArray es)) = map TArray es"
  by (induction es) auto

lemma remdups_map_TArray: "remdups (map TArray es) = map TArray (remdups es)"
  by (induction es) auto

lemma members_union_of_TArray: "members (union_of (map TArray es)) = map TArray (remdups es)"
  unfolding members_union_of concat_members_TArray remdups_map_TArray Let_def by auto

lemma UniteArray_arrays: "UniteArray (union_of (map TArray es)) = TArray (union_of es)"
proof -
  have ne: "union_of (map TArray es) \<noteq> TAny"
  proof
    assume "union_of (map TArray es) = TAny"
    then have "members (union_of (map TArray es)) = [TAny]" by simp
    then show False unfolding members_union_of_TArray by (cases "remdups es") auto
  qed
  have "map (\<lambda>m. the (array_element m)) (map TArray (remdups es)) = remdups es"
    by (simp add: comp_def)
  then have "UniteArray (union_of (map TArray es)) = TArray (union_of (remdups es))"
    using ne unfolding UniteArray_def members_union_of_TArray by auto
  then show ?thesis by (simp only: union_of_remdups)
qed

lemma union_of_skip_never:
  "union_of (TNever # ts) = union_of ts"
  "union_of (t # TNever # ts) = union_of (t # ts)"
  "union_of (t # u # TNever # ts) = union_of (t # u # ts)"
  "union_of (t # u # v # TNever # ts) = union_of (t # u # v # ts)"
  by (rule union_of_cong, simp)+

lemma prop_type_Some: "map_of ps p = Some t \<Longrightarrow> prop_type ps p = t"
  by (simp add: prop_type_def)

lemma prop_type_None: "map_of ps p = None \<Longrightarrow> prop_type ps p = TNever"
  by (simp add: prop_type_def)

lemma map_of_MergeNodeProperties:
  "map_of (MergeNodeProperties T U V W X) P =
     (if P \<in> set (map fst T) \<union> set (map fst U) \<union> set (map fst V)
             \<union> set (map fst W) \<union> set (map fst X)
      then Some (UniteArray (union_of
                  [prop_type T P, prop_type U P, prop_type V P, prop_type W P, prop_type X P]))
      else None)"
  unfolding MergeNodeProperties_def map_of_map_keys by simp

lemma keys_MergeNodeProperties:
  "set (map fst (MergeNodeProperties T U V W X)) =
     set (map fst T) \<union> set (map fst U) \<union> set (map fst V) \<union> set (map fst W) \<union> set (map fst X)"
  unfolding MergeNodeProperties_def by (auto simp: comp_def)

lemma map_of_MergeNodes:
  "map_of (MergeNodes T U V W X) P =
     (if P \<in> set (map fst T) \<union> set (map fst U) \<union> set (map fst V)
             \<union> set (map fst W) \<union> set (map fst X)
      then Some (MergeNodeProperties
                    (Prop_object (map_of T P))
                    (Prop_object (map_of U P))
                    (Prop_object (map_of V P))
                    (Prop_object (map_of W P))
                    (Prop_object (map_of X P)))
      else None)"
  unfolding MergeNodes_def map_of_map_keys by simp

lemma Extends_two: "Extends D (Tuple [E1, E2]) = Merged D [E1, E2]"
  by (simp add: Extends_def ExtendsRec.simps [of D "[E1, E2]"]
        ExtendsRec.simps [of _ "[]"] Shift4_def)

lemma nodes_Merged_two:
  "nodes (Merged D [E1, E2]) =
     MergeNodes (nodes D) (Prop_object (nodes_opt E1)) (Prop_object (nodes_opt E2)) [] []"
  by (simp add: Merged_def At0_def At1_def At2_def At3_def Prop_object_def)

lemma node_def_of_Extends_two:
  assumes "nodes_opt E1 = Some n1" and "map_of n1 N = Some s1"
    and "nodes_opt E2 = Some n2" and "map_of n2 N = Some s2"
  shows "node_def_of (Extends D (Tuple [E1, E2])) N =
           MergeNodeProperties (node_def_of D N) s1 s2 [] []"
proof -
  from assms(2) have "N \<in> set (map fst n1)" by (rule map_of_key)
  then show ?thesis
    using assms
    by (simp add: node_def_of_def Extends_two nodes_Merged_two map_of_MergeNodes Prop_object_def
          split: option.splits)
qed

lemma UniteArray_not_all_arrays:
  assumes "TAny \<notin> set (members c)" and "m \<in> set (members c)" and "array_element m = None"
  shows "UniteArray (union_of [c, TArray a, TArray b]) = union_of [c, TArray a, TArray b]"
proof -
  let ?U = "union_of [c, TArray a, TArray b]"
  have S: "set (members ?U) =
      (if TUnknown \<in> set (members c) then {TUnknown}
       else set (members c) \<union> {TArray a, TArray b})"
    using assms(1) by (auto simp: set_members_union_of Let_def)
  have "\<exists>x \<in> set (members ?U). array_element x = None"
  proof (cases "TUnknown \<in> set (members c)")
    case True
    then show ?thesis unfolding S by simp
  next
    case False
    then show ?thesis unfolding S using assms(2,3) by auto
  qed
  moreover have "?U \<noteq> TAny"
  proof
    assume "?U = TAny"
    then have "TAny \<in> set (members ?U)" by simp
    then show False unfolding S using assms(1) by (auto split: if_splits)
  qed
  ultimately show ?thesis unfolding UniteArray_def by auto
qed

lemma tags_of_merged:
  "map_of (node_def_of (Extends D (Tuple [Add_extra, Add_more])) ''Identifier'') ''tags'' =
     Some (UniteArray (union_of
       [prop_type (node_def_of D ''Identifier'') ''tags'', TArray TString, TArray TNumber]))"
proof -
  have M: "node_def_of (Extends D (Tuple [Add_extra, Add_more])) ''Identifier'' =
      MergeNodeProperties (node_def_of D ''Identifier'')
        [(''extra'', TBoolean), (''tags'', TArray TString)]
        [(''more'', TNumber), (''tags'', TArray TNumber)] [] []"
    by (rule node_def_of_Extends_two [where
          ?n1.0 = "[(''Identifier'', [(''extra'', TBoolean), (''tags'', TArray TString)])]"
          and ?n2.0 = "[(''Identifier'', [(''more'', TNumber), (''tags'', TArray TNumber)])]"])
       (simp_all add: Add_extra_def Add_more_def)
  show ?thesis
    unfolding M by (simp add: map_of_MergeNodeProperties prop_type_def union_of_skip_never)
qed

text \<open>
  C3 (as amended). Let two enhancements each have a node definition for the node
  type \<open>N\<close>, and merge them into a base definition. Every property of either node
  definition is a property of the merged node definition, and a property that only
  one of them declares, the base not declaring it, has its declared type (through
  \<^verbatim>\<open>UniteArray\<close>). For a property that both declare as a sequence, the result
  depends on the base definition: if the base does not declare it, it is one
  sequence whose element type is the union of both element types; if the base
  declares it as a sequence too, it is one sequence whose element type is the union
  of the element type of the base and both element types; if the base declares it
  with a type other than \<^verbatim>\<open>any\<close> that has a member that is no sequence, it is the
  union of the type of the base and the two sequence types, which stay apart.
\<close>

theorem Extends_merges_node_properties:
  assumes "nodes_opt E1 = Some n1" and "map_of n1 N = Some s1"
    and "nodes_opt E2 = Some n2" and "map_of n2 N = Some s2"
  shows "(map_of s1 p1 = Some t1 \<and> map_of s2 p2 = Some t2
          \<longrightarrow> p1 \<in> set (map fst (node_def_of (Extends D (Tuple [E1, E2])) N))
            \<and> p2 \<in> set (map fst (node_def_of (Extends D (Tuple [E1, E2])) N)))
       \<and> (map_of s1 p1 = Some t1 \<and> map_of s2 p1 = None \<and> map_of (node_def_of D N) p1 = None
          \<longrightarrow> map_of (node_def_of (Extends D (Tuple [E1, E2])) N) p1
                = Some (UniteArray (union_of [t1])))
       \<and> (map_of s2 p2 = Some t2 \<and> map_of s1 p2 = None \<and> map_of (node_def_of D N) p2 = None
          \<longrightarrow> map_of (node_def_of (Extends D (Tuple [E1, E2])) N) p2
                = Some (UniteArray (union_of [t2])))
       \<and> (map_of s1 q = Some (TArray a) \<and> map_of s2 q = Some (TArray b)
            \<and> map_of (node_def_of D N) q = None
          \<longrightarrow> map_of (node_def_of (Extends D (Tuple [E1, E2])) N) q
                = Some (TArray (union_of [a, b])))
       \<and> (map_of s1 q = Some (TArray a) \<and> map_of s2 q = Some (TArray b)
            \<and> map_of (node_def_of D N) q = Some (TArray c)
          \<longrightarrow> map_of (node_def_of (Extends D (Tuple [E1, E2])) N) q
                = Some (TArray (union_of [c, a, b])))
       \<and> (map_of s1 r = Some (TArray a) \<and> map_of s2 r = Some (TArray b)
            \<and> map_of (node_def_of D N) r = Some d \<and> TAny \<notin> set (members d)
            \<and> (\<exists>m \<in> set (members d). array_element m = None)
          \<longrightarrow> map_of (node_def_of (Extends D (Tuple [E1, E2])) N) r
                = Some (union_of [d, TArray a, TArray b]))"
proof -
  have M: "node_def_of (Extends D (Tuple [E1, E2])) N =
      MergeNodeProperties (node_def_of D N) s1 s2 [] []"
    using assms by (rule node_def_of_Extends_two)
  have keys: "p1 \<in> set (map fst (MergeNodeProperties (node_def_of D N) s1 s2 [] []))
      \<and> p2 \<in> set (map fst (MergeNodeProperties (node_def_of D N) s1 s2 [] []))"
    if "map_of s1 p1 = Some t1 \<and> map_of s2 p2 = Some t2"
    using that map_of_key [of s1 p1 t1] map_of_key [of s2 p2 t2]
    unfolding keys_MergeNodeProperties by blast
  have new1: "map_of (MergeNodeProperties (node_def_of D N) s1 s2 [] []) p1
      = Some (UniteArray (union_of [t1]))"
    if "map_of s1 p1 = Some t1 \<and> map_of s2 p1 = None \<and> map_of (node_def_of D N) p1 = None"
    using that map_of_key [of s1 p1 t1]
    by (simp add: map_of_MergeNodeProperties prop_type_def union_of_skip_never)
  have new2: "map_of (MergeNodeProperties (node_def_of D N) s1 s2 [] []) p2
      = Some (UniteArray (union_of [t2]))"
    if "map_of s2 p2 = Some t2 \<and> map_of s1 p2 = None \<and> map_of (node_def_of D N) p2 = None"
    using that map_of_key [of s2 p2 t2]
    by (simp add: map_of_MergeNodeProperties prop_type_def union_of_skip_never)
  have seq: "map_of (MergeNodeProperties (node_def_of D N) s1 s2 [] []) q
      = Some (TArray (union_of [a, b]))"
    if "map_of s1 q = Some (TArray a) \<and> map_of s2 q = Some (TArray b)
            \<and> map_of (node_def_of D N) q = None"
    using that map_of_key [of s1 q "TArray a"] UniteArray_arrays [of "[a, b]"]
    by (simp add: map_of_MergeNodeProperties prop_type_def union_of_skip_never)
  have seq3: "map_of (MergeNodeProperties (node_def_of D N) s1 s2 [] []) q
      = Some (TArray (union_of [c, a, b]))"
    if "map_of s1 q = Some (TArray a) \<and> map_of s2 q = Some (TArray b)
            \<and> map_of (node_def_of D N) q = Some (TArray c)"
    using that map_of_key [of s1 q "TArray a"] UniteArray_arrays [of "[c, a, b]"]
    by (simp add: map_of_MergeNodeProperties prop_type_def union_of_skip_never)
  have mixed: "map_of (MergeNodeProperties (node_def_of D N) s1 s2 [] []) r
      = Some (union_of [d, TArray a, TArray b])"
    if h: "map_of s1 r = Some (TArray a) \<and> map_of s2 r = Some (TArray b)
            \<and> map_of (node_def_of D N) r = Some d \<and> TAny \<notin> set (members d)
            \<and> (\<exists>m \<in> set (members d). array_element m = None)"
  proof -
    from h obtain m where m: "m \<in> set (members d)" "array_element m = None" by blast
    from h have any: "TAny \<notin> set (members d)" by simp
    have "UniteArray (union_of [d, TArray a, TArray b]) = union_of [d, TArray a, TArray b]"
      using any m by (rule UniteArray_not_all_arrays)
    then show ?thesis
      using h map_of_key [of s1 r "TArray a"]
      by (simp add: map_of_MergeNodeProperties prop_type_def union_of_skip_never)
  qed
  from keys new1 new2 seq seq3 mixed show ?thesis
    unfolding M by blast
qed

theorem Extends_merges_node_properties_witness:
  "nodes_opt Add_extra = Some [(''Identifier'', [(''extra'', TBoolean), (''tags'', TArray TString)])]
   \<and> nodes_opt Add_more = Some [(''Identifier'', [(''more'', TNumber), (''tags'', TArray TNumber)])]
   \<and> ''extra'' \<in> set (map fst (node_def_of (Extends Example (Tuple [Add_extra, Add_more])) ''Identifier''))
   \<and> ''more'' \<in> set (map fst (node_def_of (Extends Example (Tuple [Add_extra, Add_more])) ''Identifier''))
   \<and> map_of (node_def_of (Extends Example (Tuple [Add_extra, Add_more])) ''Identifier'') ''extra''
       = Some TBoolean
   \<and> map_of (node_def_of (Extends Example (Tuple [Add_extra, Add_more])) ''Identifier'') ''more''
       = Some TNumber
   \<and> map_of (node_def_of (Extends Example (Tuple [Add_extra, Add_more])) ''Identifier'') ''tags''
       = Some (TArray (TUnion [TString, TNumber]))
   \<and> map_of (node_def_of (Extends Tagged (Tuple [Add_extra, Add_more])) ''Identifier'') ''tags''
       = Some (TArray (TUnion [TBoolLit True, TBoolLit False, TString, TNumber]))
   \<and> map_of (node_def_of (Extends Labelled (Tuple [Add_extra, Add_more])) ''Identifier'') ''tags''
       = Some (TUnion [TString, TArray TString, TArray TNumber])"
proof -
  have E1: "nodes_opt Add_extra
      = Some [(''Identifier'', [(''extra'', TBoolean), (''tags'', TArray TString)])]"
    by (simp add: Add_extra_def)
  have E2: "nodes_opt Add_more
      = Some [(''Identifier'', [(''more'', TNumber), (''tags'', TArray TNumber)])]"
    by (simp add: Add_more_def)
  have s1: "map_of [(''Identifier'', [(''extra'', TBoolean), (''tags'', TArray TString)])] ''Identifier''
      = Some [(''extra'', TBoolean), (''tags'', TArray TString)]"
    by simp
  have s2: "map_of [(''Identifier'', [(''more'', TNumber), (''tags'', TArray TNumber)])] ''Identifier''
      = Some [(''more'', TNumber), (''tags'', TArray TNumber)]"
    by simp
  have base: "node_def_of Example ''Identifier'' = [(''name'', TString)]"
    "node_def_of Tagged ''Identifier'' = [(''tags'', TArray TBoolean)]"
    "node_def_of Labelled ''Identifier'' = [(''tags'', TString)]"
    by (simp_all add: node_def_of_def Example_def Tagged_def Labelled_def)
  have types: "UniteArray (union_of [TBoolean]) = TBoolean"
    "UniteArray (union_of [TNumber]) = TNumber"
    "union_of [TString, TNumber] = TUnion [TString, TNumber]"
    "union_of [TBoolean, TString, TNumber]
       = TUnion [TBoolLit True, TBoolLit False, TString, TNumber]"
    "union_of [TString, TArray TString, TArray TNumber]
       = TUnion [TString, TArray TString, TArray TNumber]"
    by (simp_all add: UniteArray_def union_of_def)
  from Extends_merges_node_properties
      [OF E1 s1 E2 s2, where D = Example and ?p1.0 = "''extra''" and ?p2.0 = "''more''"
         and ?t1.0 = TBoolean and ?t2.0 = TNumber and q = "''tags''"
         and a = TString and b = TNumber and c = TBoolean]
    Extends_merges_node_properties
      [OF E1 s1 E2 s2, where D = Tagged and ?p1.0 = "''extra''" and ?p2.0 = "''more''"
         and ?t1.0 = TBoolean and ?t2.0 = TNumber and q = "''tags''"
         and a = TString and b = TNumber and c = TBoolean]
    Extends_merges_node_properties
      [OF E1 s1 E2 s2, where D = Labelled and r = "''tags''"
         and a = TString and b = TNumber and d = TString]
  show ?thesis
    by (simp add: E1 E2 base types)
qed

text \<open>
  The claim as stated, for every base definition, fails at a base definition that
  declares the property already: with \<^verbatim>\<open>tags: string\<close> in the base and
  \<^verbatim>\<open>tags: string[]\<close>, \<^verbatim>\<open>tags: number[]\<close> in the enhancements the merged property is
  \<^verbatim>\<open>string | string[] | number[]\<close>, a union of two distinct sequence types; with
  \<^verbatim>\<open>tags: boolean[]\<close> in the base it is \<^verbatim>\<open>(boolean | string | number)[]\<close>, whose
  element type is not the union of the two element types of the enhancements.
\<close>

theorem Extends_merges_sequences_counterexample:
  "prop_type (node_def_of Labelled ''Identifier'') ''tags'' = TString
   \<and> map_of (node_def_of (Extends Labelled (Tuple [Add_extra, Add_more])) ''Identifier'') ''tags''
       = Some (TUnion [TString, TArray TString, TArray TNumber])
   \<and> map_of (node_def_of (Extends Labelled (Tuple [Add_extra, Add_more])) ''Identifier'') ''tags''
       \<noteq> Some (TArray (union_of [TString, TNumber]))
   \<and> prop_type (node_def_of Tagged ''Identifier'') ''tags'' = TArray TBoolean
   \<and> map_of (node_def_of (Extends Tagged (Tuple [Add_extra, Add_more])) ''Identifier'') ''tags''
       = Some (TArray (TUnion [TBoolLit True, TBoolLit False, TString, TNumber]))
   \<and> map_of (node_def_of (Extends Tagged (Tuple [Add_extra, Add_more])) ''Identifier'') ''tags''
       \<noteq> Some (TArray (union_of [TString, TNumber]))"
proof -
  have base: "prop_type (node_def_of Labelled ''Identifier'') ''tags'' = TString"
    "prop_type (node_def_of Tagged ''Identifier'') ''tags'' = TArray TBoolean"
    by (simp_all add: node_def_of_def Labelled_def Tagged_def prop_type_def)
  have types: "UniteArray (union_of [TString, TArray TString, TArray TNumber])
       = TUnion [TString, TArray TString, TArray TNumber]"
    "UniteArray (union_of [TArray TBoolean, TArray TString, TArray TNumber])
       = TArray (TUnion [TBoolLit True, TBoolLit False, TString, TNumber])"
    "union_of [TString, TNumber] = TUnion [TString, TNumber]"
    by (simp_all add: UniteArray_def union_of_def)
  show ?thesis
    by (simp add: tags_of_merged base types)
qed

end
